theory Spec2Isabelle
  imports Complex_Main "HOL-Library.Word" "HOL-Library.AList"
begin

unbundle bit_operations_syntax

section \<open>The annotation store\<close>

text \<open>
  The sources query a \<^verbatim>\<open>pycocotools.coco.COCO\<close> object. The object is not part of the
  repository, so it enters the model as a record of its query functions, one field per
  call the sources make:
  \<^item> \<open>getCatIds names\<close> is \<^verbatim>\<open>coco.getCatIds(catNms=names)\<close>;
  \<^item> \<open>loadCats i\<close> is the category entry behind \<^verbatim>\<open>coco.loadCats(...)\<close>, \<open>None\<close> where
    the lookup raises;
  \<^item> \<open>getImgIds cs\<close> is \<^verbatim>\<open>coco.getImgIds(catIds=cs)\<close>, so \<open>getImgIds []\<close> is
    \<^verbatim>\<open>coco.getImgIds()\<close>;
  \<^item> \<open>loadImgs i\<close> is \<^verbatim>\<open>coco.loadImgs(i)[0]\<close>, \<open>None\<close> where the lookup raises;
  \<^item> \<open>getAnnIds i\<close> is \<^verbatim>\<open>coco.getAnnIds(imgIds=i)\<close>;
  \<^item> \<open>loadAnns a\<close> is \<^verbatim>\<open>coco.loadAnns(a)[0]\<close>, \<open>None\<close> where the lookup raises.
\<close>

datatype error = KeyError | IndexError | ValueError | UFuncTypeError

record category =
  cat_id :: int
  name :: string

text \<open>An image entry of the store; \<open>ident\<close> is its \<^verbatim>\<open>'id'\<close>.\<close>

record image =
  ident :: int
  file_name :: string
  height :: nat
  width :: nat

text \<open>
  An annotation carries its category and its outline. The outline is kept as the region
  it covers: \<open>segmentation a y x\<close> says whether the pixel in row \<open>y\<close>, column \<open>x\<close> lies
  inside.
\<close>

record annotation =
  category_id :: int
  segmentation :: "nat \<Rightarrow> nat \<Rightarrow> bool"

record COCO =
  getCatIds :: "string list \<Rightarrow> int list"
  loadCats :: "int \<Rightarrow> category option"
  getImgIds :: "int list \<Rightarrow> int list"
  loadImgs :: "int \<Rightarrow> image option"
  getAnnIds :: "int \<Rightarrow> int list"
  loadAnns :: "int \<Rightarrow> annotation option"

section \<open>Python dictionaries\<close>

text \<open>
  A \<^verbatim>\<open>dict\<close> is an association list with one entry per key, in insertion order.
  Storing under a key that is present replaces the value where it stands, storing under a
  new key appends: this is \<^const>\<open>AList.update\<close>. \<open>dict_update d ps\<close> is
  \<^verbatim>\<open>d.update(ps)\<close> and \<open>dict ps\<close> is \<^verbatim>\<open>dict(ps)\<close>.
\<close>

type_synonym ('k, 'v) dict = "('k \<times> 'v) list"

definition dict_update :: "('k, 'v) dict \<Rightarrow> ('k \<times> 'v) list \<Rightarrow> ('k, 'v) dict" where
  "dict_update d ps = fold (\<lambda>(k, v). AList.update k v) ps d"

definition dict :: "('k \<times> 'v) list \<Rightarrow> ('k, 'v) dict" where
  "dict ps = dict_update [] ps"

definition keys :: "('k, 'v) dict \<Rightarrow> 'k list" where
  "keys d = map fst d"

section \<open>segmentation\_utils.py: the category index builder\<close>

text \<open>
  \<^verbatim>\<open>if class_names is None: class_names = []\<close>, the first statement of both
  \<^verbatim>\<open>load_imgs\<close> and \<^verbatim>\<open>get_class_dist\<close>.
\<close>

definition normalize_names :: "string list option \<Rightarrow> string list" where
  "normalize_names class_names = (case class_names of None \<Rightarrow> [] | Some ns \<Rightarrow> ns)"

text \<open>
  \<^verbatim>\<open>load_imgs\<close>. The image ids pass through \<^verbatim>\<open>list(set(...))\<close>, whose order Python
  leaves to the hash table: \<open>set_iter\<close> is that order, applied to the ids with the
  duplicates removed.
\<close>

definition load_imgs ::
  "(int list \<Rightarrow> int list) \<Rightarrow> COCO \<Rightarrow> string list option
    \<Rightarrow> error + (int list \<times> string list \<times> string list \<times> (int, nat) dict)" where
  "load_imgs set_iter coco class_names =
     (let class_names = normalize_names class_names;
          cat_ids = getCatIds coco class_names
      in case those (map (loadCats coco) cat_ids) of
           None \<Rightarrow> Inl KeyError
         | Some cats \<Rightarrow>
             let class_names = ''background'' # map name cats;
                 cat_to_class = dict (zip (0 # cat_ids) [0 ..< length class_names]);
                 img_ids = map (\<lambda>i. getImgIds coco [i]) cat_ids;
                 img_ids = set_iter (remdups (concat img_ids))
             in (case those (map (loadImgs coco) img_ids) of
                   None \<Rightarrow> Inl KeyError
                 | Some imgs \<Rightarrow> Inr (img_ids, map file_name imgs, class_names, cat_to_class)))"

text \<open>\<^verbatim>\<open>get_class_dist\<close>: no lookup in it can fail.\<close>

definition get_class_dist :: "COCO \<Rightarrow> string list option \<Rightarrow> (int, nat) dict" where
  "get_class_dist coco class_names =
     (let class_names = normalize_names class_names;
          cat_ids = getCatIds coco class_names;
          img_ids = map (\<lambda>i. getImgIds coco [i]) cat_ids;
          n_images = length (remdups (concat img_ids));
          cat_dist = dict (map (\<lambda>i. (i, length (getImgIds coco [i]))) cat_ids);
          class_dist = [(0, n_images)]
      in dict_update class_dist cat_dist)"

section \<open>Arrays\<close>

text \<open>
  A two-dimensional array of shape \<open>(H, W)\<close> is the list of its \<open>H\<close> rows, each of
  \<open>W\<close> entries. The mask of shape \<open>(H, W, n)\<close> is only ever read and written one
  channel at a time (\<^verbatim>\<open>mask[:, :, i]\<close>), so it is held as the list of its \<open>n\<close>
  channels: \<open>mask ! i\<close> is \<^verbatim>\<open>mask[:, :, i]\<close>.
  \<^verbatim>\<open>uint8\<close> and \<^verbatim>\<open>uint16\<close> entries are words. The \<^verbatim>\<open>float32\<close> entries of a mask
  only ever hold 0.0, 1.0 or a converted \<^verbatim>\<open>uint8\<close>, which \<^verbatim>\<open>float32\<close> represents
  exactly: they are the reals of these values.
\<close>

type_synonym 'a array2 = "'a list list"

definition zeros :: "nat \<Rightarrow> nat \<Rightarrow> ('a::zero) array2" where
  "zeros h w = replicate h (replicate w 0)"

definition astype :: "('a \<Rightarrow> 'b) \<Rightarrow> 'a array2 \<Rightarrow> 'b array2" where
  "astype f a = map (map f) a"

definition elementwise :: "('a \<Rightarrow> 'b \<Rightarrow> 'c) \<Rightarrow> 'a array2 \<Rightarrow> 'b array2 \<Rightarrow> 'c array2" where
  "elementwise f a b = map2 (map2 f) a b"

definition bitwise_or :: "('a::len) word array2 \<Rightarrow> 'a word array2 \<Rightarrow> 'a word array2" where
  "bitwise_or a b = elementwise (OR) a b"

definition logical_not :: "('a::len) word array2 \<Rightarrow> bool array2" where
  "logical_not a = astype (\<lambda>v. v = 0) a"

definition float32 :: "8 word \<Rightarrow> real" where
  "float32 v = real (unat v)"

text \<open>
  \<^verbatim>\<open>coco.annToMask(ann)\<close>: the store rasterises the outline at the native height and
  width of the annotation's image, into a \<^verbatim>\<open>uint8\<close> array holding 1 inside the outline
  and 0 outside. The sources only ever rasterise the annotations the store lists for the
  image at hand, so the image is passed along.
\<close>

definition annToMask :: "image \<Rightarrow> annotation \<Rightarrow> 8 word array2" where
  "annToMask img ann =
     map (\<lambda>y. map (\<lambda>x. of_bool (segmentation ann y x)) [0 ..< width img]) [0 ..< height img]"

section \<open>segmentation\_utils.py: the categorical mask\<close>

text \<open>
  The body of the \<^verbatim>\<open>for ann in anns\<close> loop of \<^verbatim>\<open>load_mask\<close>, after the annotation is
  loaded. The state is the pair of the mask and the running \<^verbatim>\<open>background\<close>; the mask is
  written \<open>msk\<close>, as \<open>mask\<close> is a constant of the word library. Writing a channel
  past the last one is numpy's IndexError. The channel indices of the map are
  the positions \<^verbatim>\<open>range\<close> produces, so they are naturals.
\<close>

definition mask_step ::
  "image \<Rightarrow> (int, nat) dict \<Rightarrow> annotation \<Rightarrow> real array2 list \<times> 8 word array2
    \<Rightarrow> error + (real array2 list \<times> 8 word array2)" where
  "mask_step img cat_to_class ann s =
     (case s of (msk, background) \<Rightarrow>
        if category_id ann \<in> set (keys cat_to_class) then
          (case map_of cat_to_class (category_id ann) of
             None \<Rightarrow> Inl KeyError
           | Some i \<Rightarrow>
               if i < length msk
               then Inr (msk[i := astype float32 (annToMask img ann)],
                         bitwise_or background (annToMask img ann))
               else Inl IndexError)
        else Inr (msk, background))"

fun mask_loop ::
  "COCO \<Rightarrow> image \<Rightarrow> (int, nat) dict \<Rightarrow> int list \<Rightarrow> real array2 list \<times> 8 word array2
    \<Rightarrow> error + (real array2 list \<times> 8 word array2)" where
  "mask_loop coco img cat_to_class [] s = Inr s"
| "mask_loop coco img cat_to_class (a # anns) s =
     (case loadAnns coco a of
        None \<Rightarrow> Inl KeyError
      | Some ann \<Rightarrow>
          (case mask_step img cat_to_class ann s of
             Inl e \<Rightarrow> Inl e
           | Inr s' \<Rightarrow> mask_loop coco img cat_to_class anns s'))"

text \<open>
  \<^verbatim>\<open>load_mask\<close>. With an empty map the mask has no channel and the final
  \<^verbatim>\<open>mask[:, :, 0] = ...\<close> is an IndexError.
\<close>

definition load_mask :: "COCO \<Rightarrow> int \<Rightarrow> (int, nat) dict \<Rightarrow> error + real array2 list" where
  "load_mask coco img_id cat_to_class =
     (case loadImgs coco img_id of
        None \<Rightarrow> Inl KeyError
      | Some img \<Rightarrow>
          let anns = getAnnIds coco img_id;
              n_classes = length cat_to_class;
              msk = replicate n_classes (zeros (height img) (width img));
              background = zeros (height img) (width img)
          in (case mask_loop coco img cat_to_class anns (msk, background) of
                Inl e \<Rightarrow> Inl e
              | Inr (msk, background) \<Rightarrow>
                  let background = astype of_bool (logical_not background)
                  in if 0 < length msk then Inr (msk[0 := background]) else Inl IndexError))"

section \<open>segmentation\_utils.py: the dataset loader\<close>

text \<open>
  \<^verbatim>\<open>os.path.join(img_dir, filename)\<close> on a POSIX system: an absolute second part stands
  alone, otherwise the parts are joined by one separator.
\<close>

definition path_join :: "string \<Rightarrow> string \<Rightarrow> string" where
  "path_join a b =
     (if b \<noteq> [] \<and> hd b = CHR ''/'' then b
      else if a = [] \<or> last a = CHR ''/'' then a @ b
      else a @ ''/'' @ b)"

text \<open>
  \<^verbatim>\<open>Image.fromarray(a).resize(sz, Image.NEAREST)\<close>, read back as an array by the
  assignment that follows it. The Pillow library takes \<open>sz\<close> as (width, height) and
  refuses an empty size; the array of an image has one row per unit of height. Which
  source pixel lands where is the library's affair: \<open>nearest a sz y x\<close> is the entry
  that nearest-neighbour resampling of \<open>a\<close> to \<open>sz\<close> puts in row \<open>y\<close>, column \<open>x\<close>.
\<close>

definition resize ::
  "(real array2 \<Rightarrow> nat \<times> nat \<Rightarrow> nat \<Rightarrow> nat \<Rightarrow> real) \<Rightarrow> real array2 \<Rightarrow> nat \<times> nat
    \<Rightarrow> error + real array2" where
  "resize nearest a sz =
     (case sz of (w_out, h_out) \<Rightarrow>
        if w_out = 0 \<or> h_out = 0 then Inl ValueError
        else Inr (map (\<lambda>y. map (\<lambda>x. nearest a sz y x) [0 ..< w_out]) [0 ..< h_out]))"

text \<open>
  \<^verbatim>\<open>target[:, :, j] = a\<close> for a slice of shape \<open>(h, w)\<close>: numpy broadcasts \<open>a\<close> to the
  shape of the slice, which it can when each dimension of \<open>a\<close> is the slice's or is 1,
  and raises ValueError otherwise. The result is the new content of the slice.
\<close>

definition broadcast_to :: "nat \<times> nat \<Rightarrow> 'a array2 \<Rightarrow> error + 'a array2" where
  "broadcast_to shape a =
     (case shape of (h, w) \<Rightarrow>
        let r = length a;
            c = (case a of [] \<Rightarrow> 0 | row # _ \<Rightarrow> length row)
        in if (r = h \<or> r = 1) \<and> (c = w \<or> c = 1)
           then Inr (map (\<lambda>row. if c = w then row else replicate w (hd row))
                       (if r = h then a else replicate h (hd a)))
           else Inl ValueError)"

text \<open>Storing a \<^verbatim>\<open>float32\<close> in a \<^verbatim>\<open>uint8\<close> array drops the fraction.\<close>

definition uint8 :: "real \<Rightarrow> 8 word" where
  "uint8 v = word_of_int \<lfloor>v\<rfloor>"

text \<open>
  The \<^verbatim>\<open>for j in range(len(class_names))\<close> loop of \<^verbatim>\<open>load_data\<close>, which fills
  \<^verbatim>\<open>mask_scaled\<close> one channel after the other: \<open>js\<close> are the channels still to do.
  Reading a channel the mask does not have is an IndexError.
\<close>

fun scale_channels ::
  "(real array2 \<Rightarrow> nat \<times> nat \<Rightarrow> nat \<Rightarrow> nat \<Rightarrow> real) \<Rightarrow> nat \<times> nat \<Rightarrow> real array2 list
    \<Rightarrow> nat list \<Rightarrow> 8 word array2 list \<Rightarrow> error + 8 word array2 list" where
  "scale_channels nearest img_size msk [] mask_scaled = Inr mask_scaled"
| "scale_channels nearest img_size msk (j # js) mask_scaled =
     (if j < length msk then
        (case resize nearest (msk ! j) img_size of
           Inl e \<Rightarrow> Inl e
         | Inr resized \<Rightarrow>
             (case broadcast_to img_size (astype uint8 resized) of
                Inl e \<Rightarrow> Inl e
              | Inr channel \<Rightarrow>
                  scale_channels nearest img_size msk js (mask_scaled[j := channel])))
      else Inl IndexError)"

text \<open>The \<^verbatim>\<open>for i, filename in enumerate(img_names)\<close> loop: decode and resize each image.\<close>

fun load_x ::
  "(string \<Rightarrow> nat \<times> nat \<Rightarrow> error + 'img) \<Rightarrow> string \<Rightarrow> nat \<times> nat \<Rightarrow> string list
    \<Rightarrow> error + 'img list" where
  "load_x load_img img_dir img_size [] = Inr []"
| "load_x load_img img_dir img_size (filename # img_names) =
     (case load_img (path_join img_dir filename) img_size of
        Inl e \<Rightarrow> Inl e
      | Inr img \<Rightarrow>
          (case load_x load_img img_dir img_size img_names of
             Inl e \<Rightarrow> Inl e
           | Inr x \<Rightarrow> Inr (img # x)))"

text \<open>The \<^verbatim>\<open>for i, img_id in enumerate(img_ids)\<close> loop: one scaled mask per image.\<close>

fun load_y ::
  "(real array2 \<Rightarrow> nat \<times> nat \<Rightarrow> nat \<Rightarrow> nat \<Rightarrow> real) \<Rightarrow> COCO \<Rightarrow> nat \<times> nat \<Rightarrow> string list
    \<Rightarrow> (int, nat) dict \<Rightarrow> int list \<Rightarrow> error + real array2 list list" where
  "load_y nearest coco img_size class_names cat_to_class [] = Inr []"
| "load_y nearest coco img_size class_names cat_to_class (img_id # img_ids) =
     (case load_mask coco img_id cat_to_class of
        Inl e \<Rightarrow> Inl e
      | Inr msk \<Rightarrow>
          (case scale_channels nearest img_size msk [0 ..< length class_names]
                  (replicate (length class_names) (zeros (fst img_size) (snd img_size))) of
             Inl e \<Rightarrow> Inl e
           | Inr mask_scaled \<Rightarrow>
               (case load_y nearest coco img_size class_names cat_to_class img_ids of
                  Inl e \<Rightarrow> Inl e
                | Inr y \<Rightarrow> Inr (map (astype float32) mask_scaled # y))))"

text \<open>
  \<^verbatim>\<open>load_data\<close>. \<open>load_img path img_size\<close> is
  \<^verbatim>\<open>img_to_array(load_img(path, target_size=img_size))\<close>, the decoded image at the
  target size or the error of a missing or broken file. \<open>img_size\<close> is (height, width),
  as the docstring and \<^verbatim>\<open>target_size\<close> have it. The progress bar prints and changes
  nothing, so \<^verbatim>\<open>show_progress\<close> is left out. \<open>x\<close> and \<open>y\<close> are the lists of their
  entries \<open>x[i]\<close> and \<open>y[i]\<close>, each \<open>y[i]\<close> held channel by channel like a mask.
\<close>

definition load_data ::
  "(int list \<Rightarrow> int list) \<Rightarrow> (string \<Rightarrow> nat \<times> nat \<Rightarrow> error + 'img)
    \<Rightarrow> (real array2 \<Rightarrow> nat \<times> nat \<Rightarrow> nat \<Rightarrow> nat \<Rightarrow> real)
    \<Rightarrow> COCO \<Rightarrow> string \<Rightarrow> nat \<times> nat \<Rightarrow> string list option
    \<Rightarrow> error + ('img list \<times> real array2 list list)" where
  "load_data set_iter load_img nearest coco img_dir img_size class_names =
     (case load_imgs set_iter coco class_names of
        Inl e \<Rightarrow> Inl e
      | Inr (img_ids, img_names, class_names, cat_to_class) \<Rightarrow>
          (case load_x load_img img_dir img_size img_names of
             Inl e \<Rightarrow> Inl e
           | Inr x \<Rightarrow>
               (case load_y nearest coco img_size class_names cat_to_class img_ids of
                  Inl e \<Rightarrow> Inl e
                | Inr y \<Rightarrow> Inr (x, y))))"

section \<open>extract\_segmentation.py\<close>

text \<open>
  The object of class \<^verbatim>\<open>ExtractSegmentations\<close>. Its constructor reads the annotation
  file into the store, which the model is handed loaded; it then prepends 0 to all the
  category ids, sorts them and numbers them.
\<close>

record ExtractSegmentations =
  pathDir :: string
  imgDir :: string
  annotationFile :: string
  masksDir :: string
  coco :: COCO
  catIds :: "int list"
  mapCatIdsLabels :: "(int, nat) dict"

definition init :: "string \<Rightarrow> string \<Rightarrow> string \<Rightarrow> string \<Rightarrow> COCO \<Rightarrow> ExtractSegmentations" where
  "init pathDir' imgDir' annotationFile' masksDir' store =
     (let catIds' = sort (0 # getCatIds store [])
      in \<lparr> pathDir = pathDir', imgDir = imgDir', annotationFile = annotationFile',
           masksDir = masksDir', coco = store, catIds = catIds',
           mapCatIdsLabels = dict (zip catIds' [0 ..< length catIds']) \<rparr>)"

text \<open>
  \<^verbatim>\<open>mask += np.array(coco.annToMask(ann), dtype=np.uint16) * catId\<close>. The product of a
  \<^verbatim>\<open>uint16\<close> array and a non-negative Python integer, added in place to a \<^verbatim>\<open>uint16\<close>
  array, is kept modulo \<open>2 ^ 16\<close>. With a negative integer the product is a signed
  array, which the in-place addition refuses to cast back.
\<close>

definition label_step :: "image \<Rightarrow> annotation \<Rightarrow> 16 word array2 \<Rightarrow> error + 16 word array2" where
  "label_step img ann msk =
     (let catId = category_id ann
      in if catId < 0 then Inl UFuncTypeError
         else Inr (elementwise (+) msk
                     (astype (\<lambda>v. ucast v * word_of_int catId) (annToMask img ann))))"

fun label_loop :: "COCO \<Rightarrow> image \<Rightarrow> int list \<Rightarrow> 16 word array2 \<Rightarrow> error + 16 word array2" where
  "label_loop store img [] msk = Inr msk"
| "label_loop store img (a # anns) msk =
     (case loadAnns store a of
        None \<Rightarrow> Inl KeyError
      | Some ann \<Rightarrow>
          (case label_step img ann msk of
             Inl e \<Rightarrow> Inl e
           | Inr msk' \<Rightarrow> label_loop store img anns msk'))"

text \<open>
  The \<^verbatim>\<open>for img in imgs\<close> loop of \<^verbatim>\<open>extractMasks\<close>. \<open>written\<close> is the list of the
  files \<^verbatim>\<open>cv2.imwrite\<close> has written so far, each with its path and content.
\<close>

fun extractMasks_loop ::
  "ExtractSegmentations \<Rightarrow> image list \<Rightarrow> 16 word array2 list \<times> (string \<times> 16 word array2) list
    \<Rightarrow> error + (16 word array2 list \<times> (string \<times> 16 word array2) list)" where
  "extractMasks_loop self [] s = Inr s"
| "extractMasks_loop self (img # imgs) s =
     (case s of (masks, written) \<Rightarrow>
        (case label_loop (coco self) img (getAnnIds (coco self) (ident img))
                (zeros (height img) (width img)) of
           Inl e \<Rightarrow> Inl e
         | Inr msk \<Rightarrow>
             extractMasks_loop self imgs
               (masks @ [msk], written @ [(pathDir self @ masksDir self @ file_name img, msk)])))"

definition extractMasks ::
  "ExtractSegmentations \<Rightarrow> (string \<times> 16 word array2) list
    \<Rightarrow> error + (16 word array2 list \<times> (string \<times> 16 word array2) list)" where
  "extractMasks self written =
     (let imgIds = getImgIds (coco self) []
      in case those (map (loadImgs (coco self)) imgIds) of
           None \<Rightarrow> Inl KeyError
         | Some imgs \<Rightarrow> extractMasks_loop self imgs ([], written))"

text \<open>\<^verbatim>\<open>mask = np.bitwise_or(mask, np.array(coco.annToMask(ann), dtype=np.uint8))\<close>.\<close>

fun binary_loop :: "COCO \<Rightarrow> image \<Rightarrow> int list \<Rightarrow> 8 word array2 \<Rightarrow> error + 8 word array2" where
  "binary_loop store img [] msk = Inr msk"
| "binary_loop store img (a # anns) msk =
     (case loadAnns store a of
        None \<Rightarrow> Inl KeyError
      | Some ann \<Rightarrow> binary_loop store img anns (bitwise_or msk (annToMask img ann)))"

fun extractBinaryMasks_loop ::
  "ExtractSegmentations \<Rightarrow> image list \<Rightarrow> 8 word array2 list \<times> (string \<times> 8 word array2) list
    \<Rightarrow> error + (8 word array2 list \<times> (string \<times> 8 word array2) list)" where
  "extractBinaryMasks_loop self [] s = Inr s"
| "extractBinaryMasks_loop self (img # imgs) s =
     (case s of (masks, written) \<Rightarrow>
        (case binary_loop (coco self) img (getAnnIds (coco self) (ident img))
                (zeros (height img) (width img)) of
           Inl e \<Rightarrow> Inl e
         | Inr msk \<Rightarrow>
             extractBinaryMasks_loop self imgs
               (masks @ [msk], written @ [(pathDir self @ masksDir self @ file_name img, msk)])))"

definition extractBinaryMasks ::
  "ExtractSegmentations \<Rightarrow> (string \<times> 8 word array2) list
    \<Rightarrow> error + (8 word array2 list \<times> (string \<times> 8 word array2) list)" where
  "extractBinaryMasks self written =
     (let imgIds = getImgIds (coco self) []
      in case those (map (loadImgs (coco self)) imgIds) of
           None \<Rightarrow> Inl KeyError
         | Some imgs \<Rightarrow> extractBinaryMasks_loop self imgs ([], written))"

section \<open>What the claims speak of\<close>

text \<open>An array has shape \<open>(h, w)\<close>: \<open>h\<close> rows of \<open>w\<close> entries each.\<close>

definition has_shape :: "nat \<Rightarrow> nat \<Rightarrow> 'a array2 \<Rightarrow> bool" where
  "has_shape h w a \<longleftrightarrow> length a = h \<and> (\<forall>row\<in>set a. length row = w)"

text \<open>
  From the words of the specification, not from the code: the category ids of the
  annotations, among those listed, that cover the pixel in row \<open>y\<close>, column \<open>x\<close>,
  one id per covering annotation.
\<close>

definition covering_ids :: "COCO \<Rightarrow> int list \<Rightarrow> nat \<Rightarrow> nat \<Rightarrow> int list" where
  "covering_ids store anns y x =
     concat (map (\<lambda>a. case loadAnns store a of
                          None \<Rightarrow> []
                        | Some ann \<Rightarrow> if segmentation ann y x then [category_id ann] else [])
               anns)"

section \<open>Example stores\<close>

text \<open>
  A store with the categories 7 (rice) and 5 (water), in this order, and two images:
  image 1 carries both categories, image 2 only water.
\<close>

definition food_coco :: COCO where
  "food_coco =
     \<lparr> getCatIds = (\<lambda>names. filter (\<lambda>i. names = [] \<or> (if i = 7 then ''rice'' else ''water'') \<in> set names) [7, 5]),
       loadCats = (\<lambda>i. if i = 7 then Some \<lparr>cat_id = 7, name = ''rice''\<rparr>
                        else if i = 5 then Some \<lparr>cat_id = 5, name = ''water''\<rparr> else None),
       getImgIds = (\<lambda>cs. if cs = [] then [1, 2] else if cs = [7] then [1]
                          else if cs = [5] then [1, 2] else []),
       loadImgs = (\<lambda>i. if i = 1 then Some \<lparr>ident = 1, file_name = ''a.jpg'', height = 1, width = 2\<rparr>
                        else if i = 2 then Some \<lparr>ident = 2, file_name = ''b.jpg'', height = 1, width = 2\<rparr>
                        else None),
       getAnnIds = (\<lambda>i. if i = 1 then [10, 11] else if i = 2 then [12] else []),
       loadAnns = (\<lambda>a. if a = 10 then Some \<lparr>category_id = 7, segmentation = (\<lambda>y x. x = 0)\<rparr>
                        else if a = 11 then Some \<lparr>category_id = 5, segmentation = (\<lambda>y x. x = 1)\<rparr>
                        else if a = 12 then Some \<lparr>category_id = 5, segmentation = (\<lambda>y x. True)\<rparr>
                        else None) \<rparr>"

text \<open>
  A store with one image that carries two annotations of the same category 5: the
  first covers the left pixel, the second the right one.
\<close>

definition twice_coco :: COCO where
  "twice_coco =
     \<lparr> getCatIds = (\<lambda>names. [5]),
       loadCats = (\<lambda>i. if i = 5 then Some \<lparr>cat_id = 5, name = ''water''\<rparr> else None),
       getImgIds = (\<lambda>cs. [1]),
       loadImgs = (\<lambda>i. if i = 1 then Some \<lparr>ident = 1, file_name = ''a.jpg'', height = 1, width = 2\<rparr>
                        else None),
       getAnnIds = (\<lambda>i. if i = 1 then [20, 21] else []),
       loadAnns = (\<lambda>a. if a = 20 then Some \<lparr>category_id = 5, segmentation = (\<lambda>y x. x = 0)\<rparr>
                        else if a = 21 then Some \<lparr>category_id = 5, segmentation = (\<lambda>y x. x = 1)\<rparr>
                        else None) \<rparr>"

text \<open>The store \<open>food_coco\<close> with the first annotation of image 1 listed twice.\<close>

definition dup_coco :: COCO where
  "dup_coco = food_coco\<lparr>getAnnIds := (getAnnIds food_coco)(1 := [10, 11, 10])\<rparr>"

text \<open>
  A store with one image of two pixels and two annotations of different categories,
  40000 and 30000: the first covers both pixels, the second the right one.
\<close>

definition overlap_coco :: COCO where
  "overlap_coco =
     \<lparr> getCatIds = (\<lambda>names. [40000, 30000]),
       loadCats = (\<lambda>i. if i = 40000 then Some \<lparr>cat_id = 40000, name = ''bread''\<rparr>
                        else if i = 30000 then Some \<lparr>cat_id = 30000, name = ''butter''\<rparr>
                        else None),
       getImgIds = (\<lambda>cs. [1]),
       loadImgs = (\<lambda>i. if i = 1 then Some \<lparr>ident = 1, file_name = ''a.jpg'', height = 1, width = 2\<rparr>
                        else None),
       getAnnIds = (\<lambda>i. if i = 1 then [30, 31] else []),
       loadAnns = (\<lambda>a. if a = 30 then Some \<lparr>category_id = 40000, segmentation = (\<lambda>y x. True)\<rparr>
                        else if a = 31 then Some \<lparr>category_id = 30000, segmentation = (\<lambda>y x. x = 1)\<rparr>
                        else None) \<rparr>"

section \<open>Dictionaries: what a lookup finds\<close>

lemma map_of_dict_update:
  "map_of (dict_update d ps) = map_of d ++ map_of (rev ps)"
proof (induction ps arbitrary: d)
  case Nil
  show ?case by (simp add: dict_update_def)
next
  case (Cons p ps)
  obtain k v where p: "p = (k, v)" by (cases p)
  have "map_of (dict_update d (p # ps)) = map_of (dict_update (AList.update k v d) ps)"
    by (simp add: dict_update_def p)
  also have "\<dots> = map_of (AList.update k v d) ++ map_of (rev ps)"
    by (rule Cons.IH)
  also have "\<dots> = map_of d ++ map_of (rev (p # ps))"
    by (simp add: p update_conv' map_add_upd_left fun_eq_iff map_add_def split: option.splits)
  finally show ?case .
qed



section \<open>Claims about the category index builder\<close>

text \<open>
  C10. \<^verbatim>\<open>class_names=None\<close> behaves as the empty list, in \<^verbatim>\<open>load_imgs\<close> and in
  \<^verbatim>\<open>get_class_dist\<close>: both results are those of the empty selection, and the category
  ids they are built from are the ones the store returns for the empty selection, which
  for the store is the request for all categories.
\<close>

theorem C10_none_is_empty_selection:
  "load_imgs set_iter c None = load_imgs set_iter c (Some [])
   \<and> get_class_dist c None = get_class_dist c (Some [])
   \<and> getCatIds c (normalize_names None) = getCatIds c []"
  by (simp add: load_imgs_def get_class_dist_def normalize_names_def)


section \<open>The categorical mask: how the loop treats an annotation\<close>

lemmas array_defs = zeros_def astype_def elementwise_def bitwise_or_def logical_not_def
  float32_def annToMask_def keys_def

lemma mask_step_out_of_scope:
  "category_id ann \<notin> set (keys m) \<Longrightarrow> mask_step img m ann s = Inr s"
  by (simp add: mask_step_def split: prod.splits)

lemma mask_loop_append:
  "mask_loop c img m (xs @ ys) s =
     (case mask_loop c img m xs s of Inl e \<Rightarrow> Inl e | Inr s' \<Rightarrow> mask_loop c img m ys s')"
  by (induction xs arbitrary: s) (auto split: option.splits sum.splits)

lemma mask_loop_skip:
  assumes "loadAnns c a = Some ann" "category_id ann \<notin> set (keys m)"
  shows "mask_loop c img m (xs @ a # ys) s = mask_loop c img m (xs @ ys) s"
  using assms by (simp add: mask_loop_append mask_step_out_of_scope split: sum.splits)

lemma mask_loop_getAnnIds:
  "mask_loop (c\<lparr>getAnnIds := g\<rparr>) img m xs s = mask_loop c img m xs s"
  by (induction xs arbitrary: s) (auto split: option.splits sum.splits)

lemma mask_loop_all_out_of_scope:
  assumes "\<forall>a\<in>set xs. \<exists>ann. loadAnns c a = Some ann \<and> category_id ann \<notin> set (keys m)"
  shows "mask_loop c img m xs s = Inr s"
  using assms by (induction xs) (auto simp: mask_step_out_of_scope)

lemma background_of_zeros:
  "astype of_bool (logical_not (zeros h w :: 8 word array2)) = replicate h (replicate w (1::real))"
  by (simp add: astype_def logical_not_def zeros_def)

lemma replicate_update_0:
  "0 < n \<Longrightarrow> (replicate n z)[0 := b] = b # replicate (n - 1) z"
  by (cases n) auto





section \<open>Claims about the categorical mask\<close>

text \<open>
  C3. An image known to the store, none of whose annotations has a category id among
  the keys of the channel index map, and a map that is not empty (it always holds the
  key 0): \<^verbatim>\<open>load_mask\<close> returns, and the mask it returns has channel 0 equal to 1 at
  every pixel and every other channel equal to 0 at every pixel.
\<close>

theorem C3_no_annotation_in_scope:
  assumes "loadImgs c img_id = Some img"
    and "\<forall>a\<in>set (getAnnIds c img_id).
           \<exists>ann. loadAnns c a = Some ann \<and> category_id ann \<notin> set (keys cat_to_class)"
    and "cat_to_class \<noteq> []"
  shows "load_mask c img_id cat_to_class =
           Inr (replicate (height img) (replicate (width img) 1)
                # replicate (length cat_to_class - 1)
                    (replicate (height img) (replicate (width img) 0)))"
  using assms
  by (simp add: load_mask_def mask_loop_all_out_of_scope background_of_zeros replicate_update_0)
     (simp add: zeros_def)

text \<open>
  C4. An annotation of the image whose category id is not a key of the channel index
  map changes nothing: \<^verbatim>\<open>load_mask\<close> gives the same result, every channel and every
  error alike, as on the store that lists the image's annotations without it.
\<close>

theorem C4_out_of_scope_annotation_ignored:
  assumes "getAnnIds c img_id = xs @ a # ys"
    and "loadAnns c a = Some ann"
    and "category_id ann \<notin> set (keys cat_to_class)"
  shows "load_mask c img_id cat_to_class
       = load_mask (c\<lparr>getAnnIds := (getAnnIds c)(img_id := xs @ ys)\<rparr>) img_id cat_to_class"
  using assms
  by (simp add: load_mask_def mask_loop_skip mask_loop_getAnnIds Let_def split: option.splits)




section \<open>The categorical mask at concrete inputs\<close>

theorem C3_no_annotation_in_scope_witness:
  "load_mask food_coco 2 [(0, 0), (7, 1)] = Inr [[[1, 1]], [[0, 0]]]"
proof -
  have img: "loadImgs food_coco 2
      = Some \<lparr>ident = 2, file_name = ''b.jpg'', height = 1, width = 2\<rparr>"
    by (simp add: food_coco_def)
  have anns: "\<forall>a\<in>set (getAnnIds food_coco 2).
      \<exists>ann. loadAnns food_coco a = Some ann
            \<and> category_id ann \<notin> set (keys [(0, 0), (7, 1::nat)])"
    by (simp add: food_coco_def keys_def)
  have ne: "[(0, 0), (7, 1::nat)] \<noteq> ([] :: (int \<times> nat) list)" by simp
  show ?thesis
    using C3_no_annotation_in_scope [OF img anns ne] by (simp add: eval_nat_numeral)
qed

theorem C4_out_of_scope_annotation_ignored_witness:
  "load_mask food_coco 1 [(0, 0), (7, 1)]
     = load_mask (food_coco\<lparr>getAnnIds := (getAnnIds food_coco)(1 := [10])\<rparr>) 1 [(0, 0), (7, 1)]
   \<and> load_mask food_coco 1 [(0, 0), (7, 1)] = Inr [[[0, 1]], [[1, 0]]]"
proof -
  have anns: "getAnnIds food_coco 1 = [10] @ 11 # []"
    by (simp add: food_coco_def)
  have a: "loadAnns food_coco 11 = Some \<lparr>category_id = 5, segmentation = (\<lambda>y x. x = 1)\<rparr>"
    by (simp add: food_coco_def)
  have out: "category_id \<lparr>category_id = 5, segmentation = (\<lambda>y x. x = 1)\<rparr>
      \<notin> set (keys [(0, 0), (7, 1::nat)])"
    by (simp add: keys_def)
  have "load_mask food_coco 1 [(0, 0), (7, 1)]
     = load_mask (food_coco\<lparr>getAnnIds := (getAnnIds food_coco)(1 := [10])\<rparr>) 1 [(0, 0), (7, 1)]"
    using C4_out_of_scope_annotation_ignored [OF anns a out] by simp
  moreover have "load_mask food_coco 1 [(0, 0), (7, 1)] = Inr [[[0, 1]], [[1, 0]]]"
    by (simp add: load_mask_def food_coco_def mask_step_def array_defs upt_rec eval_nat_numeral)
  ultimately show ?thesis by simp
qed


text \<open>
  C1, at a failing input. The image of \<open>twice_coco\<close> has two annotations of category 5,
  on different pixels. The second assignment replaces the first in channel 1, while the
  background keeps both: at the left pixel channel 0 is 0 although every other channel
  is 0 there, so channel 0 is not the negation of the union of the other channels.
\<close>

theorem C1_background_not_negated_union:
  "load_mask twice_coco 1 [(0, 0), (5, 1)] = Inr [[[0, 0]], [[0, 1]]]"
  by (simp add: load_mask_def twice_coco_def mask_step_def array_defs upt_rec eval_nat_numeral)


section \<open>Dictionaries: keys and values after an update\<close>

lemma dict_update_distinct:
  "distinct (map fst d) \<Longrightarrow> distinct (map fst (dict_update d ps))"
proof (induction ps arbitrary: d)
  case Nil
  then show ?case by (simp add: dict_update_def)
next
  case (Cons p ps)
  obtain k v where p: "p = (k, v)" by (cases p)
  have "dict_update d (p # ps) = dict_update (AList.update k v d) ps"
    by (simp add: dict_update_def p)
  with Cons show ?case by (simp add: distinct_update)
qed

lemma map_of_rev_distinct:
  "distinct (map fst xs) \<Longrightarrow> map_of (rev xs) = map_of xs"
proof (induction xs)
  case Nil
  show ?case by simp
next
  case (Cons x xs)
  obtain k v where x: "x = (k, v)" by (cases x)
  from Cons.prems have fresh: "map_of xs k = None"
    by (simp add: x map_of_eq_None_iff)
  from Cons have IH: "map_of (rev xs) = map_of xs" by simp
  show ?case
    using fresh by (auto simp: x IH map_add_def fun_eq_iff split: option.splits)
qed

lemma those_length: "those xs = Some ys \<Longrightarrow> length ys = length xs"
  by (induction xs arbitrary: ys) (auto split: option.splits)


section \<open>Claims about the category index builder, continued\<close>


text \<open>
  C9. When none of the resolved category ids is 0, the dictionary \<^verbatim>\<open>get_class_dist\<close>
  returns, for any selection of names, maps 0 to the number of different images the
  store lists for at least one resolved category, and every resolved category id to the
  length of the image list the store returns for that category.
\<close>

theorem C9_class_dist:
  assumes "0 \<notin> set (getCatIds c (normalize_names class_names))"
  shows "map_of (get_class_dist c class_names) 0
           = Some (card (\<Union>i\<in>set (getCatIds c (normalize_names class_names)). set (getImgIds c [i])))
       \<and> (\<forall>i\<in>set (getCatIds c (normalize_names class_names)).
             map_of (get_class_dist c class_names) i = Some (length (getImgIds c [i])))"
proof -
  let ?ids = "getCatIds c (normalize_names class_names)"
  let ?f = "\<lambda>i. length (getImgIds c [i])"
  let ?ps = "map (\<lambda>i. (i, ?f i)) ?ids"
  let ?n = "length (remdups (concat (map (\<lambda>i. getImgIds c [i]) ?ids)))"
  have gd: "get_class_dist c class_names = dict_update [(0, ?n)] (dict ?ps)"
    by (simp add: get_class_dist_def Let_def)
  have dk: "distinct (map fst (dict ?ps))"
    unfolding dict_def by (rule dict_update_distinct) simp
  have lookup: "map_of (dict ?ps) = map_of (rev ?ps)"
    by (simp add: dict_def map_of_dict_update)
  have rev_ps: "rev ?ps = map (\<lambda>i. (i, ?f i)) (rev ?ids)"
    by (simp add: rev_map)
  have val: "map_of (rev ?ps) k = (if k \<in> set ?ids then Some (?f k) else None)" for k
    unfolding rev_ps by (simp add: map_of_map_restrict restrict_map_def)
  have all: "map_of (get_class_dist c class_names) k
      = (if k \<in> set ?ids then Some (?f k) else if k = 0 then Some ?n else None)" for k
    unfolding gd map_of_dict_update
    using dk by (simp add: map_of_rev_distinct lookup val map_add_def)
  have n: "?n = card (\<Union>i\<in>set ?ids. set (getImgIds c [i]))"
    by (simp add: length_remdups_card_conv)
  show ?thesis using assms by (simp add: all n)
qed

section \<open>The category index builder at concrete inputs\<close>

lemma food_coco_resolved:
  "getCatIds food_coco (normalize_names (Some [''water'', ''rice''])) = [7, 5]"
  "getCatIds food_coco (normalize_names None) = [7, 5]"
  by (simp_all add: food_coco_def normalize_names_def)


theorem C9_class_dist_witness:
  "map_of (get_class_dist food_coco None) 0 = Some 2
   \<and> map_of (get_class_dist food_coco None) 7 = Some 1
   \<and> map_of (get_class_dist food_coco None) 5 = Some 2"
proof -
  have z: "0 \<notin> set (getCatIds food_coco (normalize_names None))"
    by (simp add: food_coco_resolved)
  have imgs: "getImgIds food_coco [7] = [1]" "getImgIds food_coco [5] = [1, 2]"
    by (simp_all add: food_coco_def)
  from C9_class_dist [OF z] show ?thesis
    by (simp add: food_coco_resolved imgs card_insert_if)
qed

text \<open>
  The constructor of \<^verbatim>\<open>ExtractSegmentations\<close> builds a map of its own, for all
  categories and with the ids sorted: on the same store its channel for category 7 is 2,
  where \<^verbatim>\<open>load_imgs\<close> gives 1.
\<close>

lemma init_sorts_the_ids:
  "mapCatIdsLabels (init p i a m food_coco) = [(0, 0), (5, 1), (7, 2)]"
  by (simp add: init_def food_coco_def dict_def dict_update_def)


section \<open>The binary union mask: OR absorbs and commutes\<close>

lemma map2_absorb:
  assumes "\<And>x y. f (f x y) y = f x y"
  shows "map2 f (map2 f m a) a = map2 f m a"
proof (induction m arbitrary: a)
  case Nil
  show ?case by simp
next
  case (Cons x m)
  show ?case by (cases a) (simp_all add: assms Cons.IH)
qed

lemma map2_swap:
  assumes "\<And>x y z. f (f x y) z = f (f x z) y"
  shows "map2 f (map2 f m a) b = map2 f (map2 f m b) a"
proof (induction m arbitrary: a b)
  case Nil
  show ?case by simp
next
  case (Cons x m)
  show ?case by (cases a; cases b) (simp_all add: assms Cons.IH)
qed

lemma bitwise_or_absorb: "bitwise_or (bitwise_or m a) a = bitwise_or m a"
  unfolding bitwise_or_def elementwise_def
  by (intro map2_absorb) (simp add: or.assoc)

lemma bitwise_or_swap: "bitwise_or (bitwise_or m a) b = bitwise_or (bitwise_or m b) a"
  unfolding bitwise_or_def elementwise_def
  by (intro map2_swap) (simp add: or.assoc or.commute or.left_commute)

lemma binary_loop_append:
  "binary_loop c img (xs @ ys) m =
     (case binary_loop c img xs m of Inl e \<Rightarrow> Inl e | Inr m' \<Rightarrow> binary_loop c img ys m')"
  by (induction xs arbitrary: m) (auto split: option.splits)

lemma binary_loop_swap:
  "binary_loop c img (a # b # ys) m = binary_loop c img (b # a # ys) m"
  by (simp add: bitwise_or_swap split: option.splits)

lemma binary_loop_twice:
  "binary_loop c img (a # a # ys) m = binary_loop c img (a # ys) m"
  by (simp add: bitwise_or_absorb split: option.splits)

lemma binary_loop_Cons_None:
  "loadAnns c y = None \<Longrightarrow> binary_loop c img (y # r) m = Inl KeyError"
  by simp

lemma binary_loop_Cons_Some:
  "loadAnns c y = Some ann \<Longrightarrow>
     binary_loop c img (y # r) m = binary_loop c img r (bitwise_or m (annToMask img ann))"
  by simp

lemma binary_loop_duplicate_head:
  "binary_loop c img (a # ys @ a # zs) m = binary_loop c img (a # ys @ zs) m"
proof (induction ys arbitrary: m)
  case Nil
  show ?case using binary_loop_twice [of c img a zs m] by simp
next
  case (Cons y ys)
  have "binary_loop c img (a # (y # ys) @ a # zs) m = binary_loop c img (y # a # ys @ a # zs) m"
    using binary_loop_swap [of c img a y "ys @ a # zs" m] by simp
  also have "\<dots> = binary_loop c img (y # a # ys @ zs) m"
  proof (cases "loadAnns c y")
    case None
    then show ?thesis by (simp only: binary_loop_Cons_None)
  next
    case (Some ann)
    then show ?thesis by (simp only: binary_loop_Cons_Some Cons.IH)
  qed
  also have "\<dots> = binary_loop c img (a # (y # ys) @ zs) m"
    using binary_loop_swap [of c img y a "ys @ zs" m] by simp
  finally show ?case .
qed

lemma binary_loop_duplicate:
  "binary_loop c img (xs @ a # ys @ a # zs) m = binary_loop c img (xs @ a # ys @ zs) m"
  by (simp only: binary_loop_append binary_loop_duplicate_head)

lemma binary_loop_getAnnIds:
  "binary_loop (c\<lparr>getAnnIds := g\<rparr>) img xs m = binary_loop c img xs m"
  by (induction xs arbitrary: m) (auto split: option.splits)

lemma extractBinaryMasks_loop_duplicate:
  assumes "getAnnIds (coco self) i = xs @ a # ys @ a # zs"
  shows "extractBinaryMasks_loop
           (self\<lparr>coco := (coco self)\<lparr>getAnnIds := (getAnnIds (coco self))(i := xs @ a # ys @ zs)\<rparr>\<rparr>)
           imgs s
       = extractBinaryMasks_loop self imgs s"
proof -
  define self' where
    "self' = self\<lparr>coco := (coco self)\<lparr>getAnnIds := (getAnnIds (coco self))(i := xs @ a # ys @ zs)\<rparr>\<rparr>"
  have fields: "pathDir self' = pathDir self" "masksDir self' = masksDir self"
    by (simp_all add: self'_def)
  have step: "binary_loop (coco self') img (getAnnIds (coco self') (ident img)) m
      = binary_loop (coco self) img (getAnnIds (coco self) (ident img)) m" for img m
    using assms by (simp add: self'_def binary_loop_getAnnIds binary_loop_duplicate)
  have "extractBinaryMasks_loop self' imgs s = extractBinaryMasks_loop self imgs s"
  proof (induction imgs arbitrary: s)
    case Nil
    show ?case by simp
  next
    case (Cons img imgs)
    show ?case
      by (cases s) (simp add: step fields Cons.IH split: sum.splits)
  qed
  then show ?thesis by (simp only: self'_def)
qed

section \<open>Claims about the binary union mask\<close>

text \<open>
  C8. A store that lists an annotation twice for an image, anywhere in the image's
  annotation list, makes \<^verbatim>\<open>extractBinaryMasks\<close> return the same masks and write the
  same files as the store that lists it once: OR-ing a rasterization in a second time
  changes nothing.
\<close>

theorem C8_duplicate_annotation_absorbed:
  assumes "getAnnIds (coco self) i = xs @ a # ys @ a # zs"
  shows "extractBinaryMasks self written
       = extractBinaryMasks
           (self\<lparr>coco := (coco self)\<lparr>getAnnIds := (getAnnIds (coco self))(i := xs @ a # ys @ zs)\<rparr>\<rparr>)
           written"
  using assms
  by (simp add: extractBinaryMasks_def extractBinaryMasks_loop_duplicate split: option.splits)

theorem C8_duplicate_annotation_absorbed_witness:
  "extractBinaryMasks (init ''data/'' ''/images/'' ''annotations.json'' ''masks/'' dup_coco) []
     = extractBinaryMasks
         ((init ''data/'' ''/images/'' ''annotations.json'' ''masks/'' dup_coco)
            \<lparr>coco := dup_coco\<lparr>getAnnIds := (getAnnIds dup_coco)(1 := [10, 11])\<rparr>\<rparr>) []
   \<and> extractBinaryMasks (init ''data/'' ''/images/'' ''annotations.json'' ''masks/'' dup_coco) []
     = Inr ([[[1, 1]], [[1, 1]]],
            [(''data/masks/a.jpg'', [[1, 1]]), (''data/masks/b.jpg'', [[1, 1]])])"
proof -
  let ?self = "init ''data/'' ''/images/'' ''annotations.json'' ''masks/'' dup_coco"
  have store: "coco ?self = dup_coco"
    by (simp add: init_def Let_def)
  have anns: "getAnnIds (coco ?self) 1 = [] @ 10 # [11] @ 10 # []"
    unfolding store by (simp add: dup_coco_def)
  have run: "extractBinaryMasks ?self []
     = Inr ([[[1, 1]], [[1, 1]]],
            [(''data/masks/a.jpg'', [[1, 1]]), (''data/masks/b.jpg'', [[1, 1]])])"
    by (simp add: extractBinaryMasks_def init_def Let_def dup_coco_def food_coco_def array_defs
        upt_rec eval_nat_numeral)
  from C8_duplicate_annotation_absorbed [OF anns, of "[]"] run show ?thesis
    by (simp add: store)
qed


section \<open>The flattened label mask: one pixel after the loop\<close>

lemma has_shape_zeros: "has_shape h w (zeros h w)"
  by (simp add: has_shape_def zeros_def)

lemma has_shape_annToMask: "has_shape (height img) (width img) (astype g (annToMask img ann))"
  by (simp add: has_shape_def astype_def annToMask_def)

lemma nth_annToMask:
  "y < height img \<Longrightarrow> x < width img \<Longrightarrow>
     astype g (annToMask img ann) ! y ! x = g (of_bool (segmentation ann y x))"
  by (simp add: astype_def annToMask_def)

lemma has_shape_elementwise:
  assumes "has_shape h w a" and "has_shape h w b"
  shows "has_shape h w (elementwise f a b)"
proof -
  have "length (map2 f ra rb) = w" if "(ra, rb) \<in> set (zip a b)" for ra rb
  proof -
    from that have "ra \<in> set a" and "rb \<in> set b"
      by (auto dest: set_zip_leftD set_zip_rightD)
    with assms show ?thesis by (simp add: has_shape_def)
  qed
  with assms show ?thesis by (auto simp: has_shape_def elementwise_def)
qed

lemma nth_elementwise:
  "has_shape h w a \<Longrightarrow> has_shape h w b \<Longrightarrow> y < h \<Longrightarrow> x < w \<Longrightarrow>
     elementwise f a b ! y ! x = f (a ! y ! x) (b ! y ! x)"
  by (simp add: has_shape_def elementwise_def)

lemma zeros_nth: "y < h \<Longrightarrow> x < w \<Longrightarrow> zeros h w ! y ! x = 0"
  by (simp add: zeros_def)

lemma label_loop_pixel:
  assumes "label_loop c img anns m0 = Inr m"
    and "has_shape (height img) (width img) m0"
    and "y < height img" "x < width img"
  shows "m ! y ! x = m0 ! y ! x + word_of_int (sum_list (covering_ids c anns y x))"
  using assms
proof (induction anns arbitrary: m0)
  case Nil
  then show ?case by (simp add: covering_ids_def)
next
  case (Cons a anns)
  from Cons.prems(1) obtain ann where a: "loadAnns c a = Some ann"
    by (auto split: option.splits)
  let ?r = "astype (\<lambda>v. ucast v * word_of_int (category_id ann)) (annToMask img ann)
              :: 16 word array2"
  let ?m1 = "elementwise (+) m0 ?r"
  from Cons.prems(1) a have nonneg: "0 \<le> category_id ann"
    and rest: "label_loop c img anns ?m1 = Inr m"
    by (auto simp: label_step_def Let_def split: if_splits)
  have shape1: "has_shape (height img) (width img) ?m1"
    using Cons.prems(2) by (intro has_shape_elementwise has_shape_annToMask)
  have "m ! y ! x = ?m1 ! y ! x + word_of_int (sum_list (covering_ids c anns y x))"
    using rest shape1 Cons.prems(3,4) by (rule Cons.IH)
  moreover have "?m1 ! y ! x = m0 ! y ! x + ?r ! y ! x"
    using Cons.prems(2) has_shape_annToMask Cons.prems(3,4) by (rule nth_elementwise)
  moreover have "?r ! y ! x = (if segmentation ann y x then word_of_int (category_id ann) else 0)"
    using Cons.prems(3,4) by (simp add: nth_annToMask)
  moreover have "covering_ids c (a # anns) y x
      = (if segmentation ann y x then [category_id ann] else []) @ covering_ids c anns y x"
    by (simp add: covering_ids_def a)
  ultimately show ?case by simp
qed

lemma extractMasks_loop_masks:
  assumes "extractMasks_loop self imgs (ms, wr) = Inr (masks, wr')"
  shows "length masks = length ms + length imgs
       \<and> (\<forall>j < length imgs.
             label_loop (coco self) (imgs ! j) (getAnnIds (coco self) (ident (imgs ! j)))
               (zeros (height (imgs ! j)) (width (imgs ! j)))
             = Inr (masks ! (length ms + j)))
       \<and> (\<forall>j < length ms. masks ! j = ms ! j)"
  using assms
proof (induction imgs arbitrary: ms wr)
  case Nil
  then show ?case by simp
next
  case (Cons img imgs)
  from Cons.prems obtain msk where
    one: "label_loop (coco self) img (getAnnIds (coco self) (ident img))
            (zeros (height img) (width img)) = Inr msk"
    and rest: "extractMasks_loop self imgs
            (ms @ [msk], wr @ [(pathDir self @ masksDir self @ file_name img, msk)])
          = Inr (masks, wr')"
    by (auto split: sum.splits)
  from Cons.IH [OF rest]
  have len: "length masks = length (ms @ [msk]) + length imgs"
    and later: "\<forall>j < length imgs.
             label_loop (coco self) (imgs ! j) (getAnnIds (coco self) (ident (imgs ! j)))
               (zeros (height (imgs ! j)) (width (imgs ! j)))
             = Inr (masks ! (length (ms @ [msk]) + j))"
    and kept: "\<forall>j < length (ms @ [msk]). masks ! j = (ms @ [msk]) ! j"
    by blast+
  from kept have here: "masks ! length ms = msk"
    by (metis length_append_singleton lessI nth_append_length)
  have "label_loop (coco self) ((img # imgs) ! j)
          (getAnnIds (coco self) (ident ((img # imgs) ! j)))
          (zeros (height ((img # imgs) ! j)) (width ((img # imgs) ! j)))
        = Inr (masks ! (length ms + j))" if "j < length (img # imgs)" for j
  proof (cases j)
    case 0
    then show ?thesis by (simp add: one here)
  next
    case (Suc k)
    with that later show ?thesis by simp
  qed
  moreover have "masks ! j = ms ! j" if "j < length ms" for j
    using kept that by (simp add: nth_append)
  ultimately show ?case using len by simp
qed

lemma label_loop_returns:
  assumes "\<forall>a\<in>set anns. \<exists>ann. loadAnns c a = Some ann \<and> 0 \<le> category_id ann"
  shows "\<exists>m. label_loop c img anns m0 = Inr m"
  using assms
proof (induction anns arbitrary: m0)
  case Nil
  show ?case by simp
next
  case (Cons a anns)
  from Cons.prems obtain ann where a: "loadAnns c a = Some ann" and nonneg: "0 \<le> category_id ann"
    by auto
  from Cons.prems
  have rest: "\<forall>a\<in>set anns. \<exists>ann. loadAnns c a = Some ann \<and> 0 \<le> category_id ann"
    by simp
  from nonneg obtain m1 where step: "label_step img ann m0 = Inr m1"
    by (simp add: label_step_def Let_def)
  from Cons.IH [OF rest, of m1] obtain m where "label_loop c img anns m1 = Inr m" ..
  with a step show ?case by simp
qed

lemma extractMasks_loop_returns:
  assumes "\<forall>img\<in>set imgs. \<forall>a\<in>set (getAnnIds (coco self) (ident img)).
             \<exists>ann. loadAnns (coco self) a = Some ann \<and> 0 \<le> category_id ann"
  shows "\<exists>masks written'. extractMasks_loop self imgs s = Inr (masks, written')"
  using assms
proof (induction imgs arbitrary: s)
  case Nil
  show ?case by (cases s) simp
next
  case (Cons img imgs)
  obtain ms wr where s: "s = (ms, wr)" by (cases s)
  from Cons.prems
  have "\<forall>a\<in>set (getAnnIds (coco self) (ident img)).
          \<exists>ann. loadAnns (coco self) a = Some ann \<and> 0 \<le> category_id ann"
    by simp
  then obtain msk where one:
    "label_loop (coco self) img (getAnnIds (coco self) (ident img))
       (zeros (height img) (width img)) = Inr msk"
    using label_loop_returns by blast
  from Cons.prems
  have rest: "\<forall>img\<in>set imgs. \<forall>a\<in>set (getAnnIds (coco self) (ident img)).
             \<exists>ann. loadAnns (coco self) a = Some ann \<and> 0 \<le> category_id ann"
    by simp
  from Cons.IH [OF rest] one show ?case by (simp add: s)
qed

lemma extractMasks_pixel:
  assumes "extractMasks self written = Inr (masks, written')"
    and "those (map (loadImgs (coco self)) (getImgIds (coco self) [])) = Some imgs"
    and "j < length imgs"
    and "y < height (imgs ! j)"
    and "x < width (imgs ! j)"
  shows "length masks = length imgs
       \<and> uint (masks ! j ! y ! x)
           = sum_list (covering_ids (coco self) (getAnnIds (coco self) (ident (imgs ! j))) y x)
               mod 2 ^ 16"
proof -
  from assms(1,2) have loop: "extractMasks_loop self imgs ([], written) = Inr (masks, written')"
    by (simp add: extractMasks_def)
  from extractMasks_loop_masks [OF loop] assms(3)
  have len: "length masks = length imgs"
    and one: "label_loop (coco self) (imgs ! j) (getAnnIds (coco self) (ident (imgs ! j)))
               (zeros (height (imgs ! j)) (width (imgs ! j)))
             = Inr (masks ! j)"
    by simp_all
  have "masks ! j ! y ! x
      = zeros (height (imgs ! j)) (width (imgs ! j)) ! y ! x
        + word_of_int (sum_list (covering_ids (coco self)
            (getAnnIds (coco self) (ident (imgs ! j))) y x))"
    using one has_shape_zeros assms(4,5) by (rule label_loop_pixel)
  then have "masks ! j ! y ! x
      = word_of_int (sum_list (covering_ids (coco self)
            (getAnnIds (coco self) (ident (imgs ! j))) y x))"
    using assms(4,5) by (simp add: zeros_nth)
  then show ?thesis using len by (simp add: uint_word_of_int)
qed

section \<open>Claims about the flattened label mask\<close>

text \<open>
  C7. Let the store know its images (\<open>imgs\<close> are the entries \<^verbatim>\<open>loadImgs\<close> returns for
  \<^verbatim>\<open>getImgIds()\<close>), let every annotation it lists for one of them load, and let no
  category id be negative. Then \<^verbatim>\<open>extractMasks\<close> returns, it returns one mask per
  image, and in the mask of every image the value at every pixel, read as an unsigned
  number, is the sum of the category ids of the annotations of the image that cover the
  pixel, modulo \<open>2 ^ 16\<close>. Annotations of different categories that overlap are summed
  like any others.
\<close>

theorem C7_label_mask_is_sum_mod_65536:
  assumes "those (map (loadImgs (coco self)) (getImgIds (coco self) [])) = Some imgs"
    and "\<forall>img\<in>set imgs. \<forall>a\<in>set (getAnnIds (coco self) (ident img)).
           \<exists>ann. loadAnns (coco self) a = Some ann \<and> 0 \<le> category_id ann"
  shows "\<exists>masks written'.
           extractMasks self written = Inr (masks, written')
         \<and> length masks = length imgs
         \<and> (\<forall>j < length imgs. \<forall>y < height (imgs ! j). \<forall>x < width (imgs ! j).
               uint (masks ! j ! y ! x)
                 = sum_list (covering_ids (coco self)
                     (getAnnIds (coco self) (ident (imgs ! j))) y x) mod 2 ^ 16)"
proof -
  from extractMasks_loop_returns [OF assms(2), of "([], written)"]
  obtain masks written' where
    loop: "extractMasks_loop self imgs ([], written) = Inr (masks, written')"
    by blast
  with assms(1) have run: "extractMasks self written = Inr (masks, written')"
    by (simp add: extractMasks_def)
  have "length masks = length imgs
      \<and> uint (masks ! j ! y ! x)
          = sum_list (covering_ids (coco self) (getAnnIds (coco self) (ident (imgs ! j))) y x)
              mod 2 ^ 16"
    if "j < length imgs" and "y < height (imgs ! j)" and "x < width (imgs ! j)" for j y x
    using run assms(1) that by (rule extractMasks_pixel)
  moreover have "length masks = length imgs"
    using extractMasks_loop_masks [OF loop] by simp
  ultimately show ?thesis using run by blast
qed

lemma upt_small: "[0 ..< 1] = [0]" "[0 ..< 2] = [0, 1]"
  by (simp_all add: upt_rec)

lemma replicate_small: "replicate 1 x = [x]" "replicate 2 x = [x, x]"
  by (simp_all add: numeral_2_eq_2)

theorem C7_label_mask_is_sum_mod_65536_witness:
  "extractMasks (init ''data/'' ''/images/'' ''annotations.json'' ''masks/'' overlap_coco) []
     = Inr ([[[40000, 4464]]], [(''data/masks/a.jpg'', [[40000, 4464]])])
   \<and> covering_ids overlap_coco [30, 31] 0 1 = [40000, 30000]
   \<and> uint ([[[40000, 4464 :: 16 word]]] ! 0 ! 0 ! 1) = sum_list [40000, 30000] mod 2 ^ 16"
proof -
  let ?self = "init ''data/'' ''/images/'' ''annotations.json'' ''masks/'' overlap_coco"
  let ?img = "\<lparr>ident = 1, file_name = ''a.jpg'', height = 1, width = 2\<rparr>"
  have store: "coco ?self = overlap_coco"
    by (simp add: init_def Let_def)
  have run: "extractMasks ?self []
     = Inr ([[[40000, 4464]]], [(''data/masks/a.jpg'', [[40000, 4464]])])"
    by (simp add: extractMasks_def init_def Let_def overlap_coco_def label_step_def array_defs
        upt_small replicate_small)
  have imgs: "those (map (loadImgs (coco ?self)) (getImgIds (coco ?self) [])) = Some [?img]"
    unfolding store by (simp add: overlap_coco_def)
  have anns: "getAnnIds overlap_coco 1 = [30, 31]"
    by (simp add: overlap_coco_def)
  have ok: "\<forall>img\<in>set [?img]. \<forall>a\<in>set (getAnnIds (coco ?self) (ident img)).
      \<exists>ann. loadAnns (coco ?self) a = Some ann \<and> 0 \<le> category_id ann"
    unfolding store by (simp add: anns) (simp add: overlap_coco_def)
  have cov: "covering_ids overlap_coco [30, 31] 0 1 = [40000, 30000]"
    by (simp add: covering_ids_def overlap_coco_def)
  from C7_label_mask_is_sum_mod_65536 [OF imgs ok, of "[]"]
  obtain masks written' where
    ret: "extractMasks ?self [] = Inr (masks, written')"
    and px: "\<forall>j < length [?img]. \<forall>y < height ([?img] ! j). \<forall>x < width ([?img] ! j).
               uint (masks ! j ! y ! x)
                 = sum_list (covering_ids (coco ?self)
                     (getAnnIds (coco ?self) (ident ([?img] ! j))) y x) mod 2 ^ 16"
    by blast
  from ret run have masks: "masks = [[[40000, 4464]]]" by simp
  from px have "uint (masks ! 0 ! 0 ! 1)
      = sum_list (covering_ids (coco ?self) (getAnnIds (coco ?self) (ident ([?img] ! 0))) 0 1)
          mod 2 ^ 16"
    by simp
  then have "uint ([[[40000, 4464 :: 16 word]]] ! 0 ! 0 ! 1)
      = sum_list [40000, 30000] mod 2 ^ 16"
    unfolding masks store by (simp only: nth_Cons_0 image.simps anns cov)
  with run cov show ?thesis by simp
qed

section \<open>The dataset loader: a target size that is not square\<close>

text \<open>
  \<^verbatim>\<open>load_data\<close> hands its \<open>img_size\<close>, which is (height, width), to \<^verbatim>\<open>resize\<close>,
  which reads it as (width, height). The resized channel comes back transposed and, when
  height and width differ, does not fit the slice of \<^verbatim>\<open>mask_scaled\<close> it is assigned
  to. So with such a size the loader returns only when there is no image to load.
\<close>

lemma resize_swaps:
  "0 < h \<Longrightarrow> 0 < w \<Longrightarrow>
     resize nearest a (h, w) = Inr (map (\<lambda>y. map (\<lambda>x. nearest a (h, w) y x) [0 ..< h]) [0 ..< w])"
  by (simp add: resize_def)

lemma resize_empty:
  "h = 0 \<or> w = 0 \<Longrightarrow> resize nearest a (h, w) = Inl ValueError"
  by (auto simp: resize_def)

lemma broadcast_to_transposed:
  assumes "h \<noteq> w" and "0 < h" and "0 < w"
  shows "broadcast_to (h, w) (astype g (map (\<lambda>y. map (f y) [0 ..< h]) [0 ..< w])) = Inl ValueError"
proof -
  from \<open>0 < w\<close> have w: "[0 ..< w] = 0 # [1 ..< w]"
    by (simp add: upt_conv_Cons)
  show ?thesis
    using assms by (auto simp: broadcast_to_def astype_def w Let_def)
qed

lemma scale_channels_not_square:
  assumes "h \<noteq> w" and "msk \<noteq> []"
  shows "scale_channels nearest (h, w) msk (0 # js) ms = Inl ValueError"
proof (cases "h = 0 \<or> w = 0")
  case True
  with assms(2) show ?thesis by (simp add: resize_empty)
next
  case False
  then have "0 < h" and "0 < w" by simp_all
  with assms show ?thesis
    by (simp add: resize_swaps broadcast_to_transposed)
qed

lemma load_mask_not_empty: "load_mask c i m = Inr msk \<Longrightarrow> msk \<noteq> []"
  by (auto simp: load_mask_def Let_def split: option.splits sum.splits if_splits)

lemma load_y_not_square:
  assumes "h \<noteq> w"
  shows "\<exists>e. load_y nearest c (h, w) (n # names) m (i # ids) = Inl e"
proof (cases "load_mask c i m")
  case (Inl e)
  then show ?thesis by simp
next
  case (Inr msk)
  then have "msk \<noteq> []" by (rule load_mask_not_empty)
  with assms have "scale_channels nearest (h, w) msk (0 # [1 ..< Suc (length names)]) ms = Inl ValueError" for ms
    by (rule scale_channels_not_square)
  moreover have "[0 ..< length (n # names)] = 0 # [1 ..< Suc (length names)]"
    by (simp add: upt_conv_Cons del: upt_Suc)
  ultimately show ?thesis using Inr by (simp del: upt_Suc scale_channels.simps)
qed

lemma load_x_length:
  "load_x load_img dir sz names = Inr x \<Longrightarrow> length x = length names"
  by (induction names arbitrary: x) (auto split: sum.splits)

lemma load_data_not_square:
  assumes "h \<noteq> w"
    and "load_data set_iter load_img nearest c dir (h, w) class_names = Inr (x, y)"
  shows "x = [] \<and> y = []"
proof -
  from assms(2) obtain img_ids img_names names m where
    imgs: "load_imgs set_iter c class_names = Inr (img_ids, img_names, names, m)"
    and x: "load_x load_img dir (h, w) img_names = Inr x"
    and y: "load_y nearest c (h, w) names m img_ids = Inr y"
    by (auto simp: load_data_def split: sum.splits prod.splits)
  from imgs have len: "length img_names = length img_ids" and "names \<noteq> []"
    by (auto simp: load_imgs_def Let_def split: option.splits dest: those_length)
  then obtain n names' where names: "names = n # names'"
    by (cases names) auto
  have "img_ids = []"
  proof (cases img_ids)
    case Nil
    then show ?thesis .
  next
    case (Cons i ids)
    with load_y_not_square [OF assms(1), of nearest c n names' m i ids] y names
    show ?thesis by simp
  qed
  with y x len load_x_length [OF x] show ?thesis by simp
qed

section \<open>The dataset loader at concrete inputs\<close>

lemma small3: "[0 ..< 3] = [0, 1, 2]" "replicate 3 x = [x, x, x]"
  by (simp_all add: upt_rec numeral_3_eq_3)

lemma food_coco_all:
  "load_imgs (\<lambda>xs. xs) food_coco None
     = Inr ([1, 2], [''a.jpg'', ''b.jpg''], [''background'', ''rice'', ''water''],
            [(0, 0), (7, 1), (5, 2)])"
  by (simp add: load_imgs_def food_coco_def normalize_names_def dict_def dict_update_def)

lemma food_coco_mask_1:
  "load_mask food_coco 1 [(0, 0), (7, 1), (5, 2)] = Inr [[[0, 0]], [[1, 0]], [[0, 1]]]"
  by (simp add: load_mask_def food_coco_def mask_step_def array_defs upt_small replicate_small
      small3)

text \<open>
  C6, at a failing input. The store \<open>food_coco\<close>, all categories, every image file
  readable, and the target size of height 1 and width 2: whatever the resampling does,
  \<^verbatim>\<open>load_data\<close> raises ValueError on the first channel of the first mask instead
  of returning \<open>Y\<close> of shape (2, 1, 2, 3).
\<close>

theorem C6_not_square_target_raises:
  "load_data (\<lambda>xs. xs) (\<lambda>path sz. Inr path) nearest food_coco ''imgs'' (1, 2) None
     = Inl ValueError"
proof -
  let ?names = "[''background'', ''rice'', ''water'']"
  let ?m = "[(0, 0), (7, 1), (5, 2)] :: (int \<times> nat) list"
  have x: "load_x (\<lambda>path sz. Inr path) ''imgs'' (1, 2) [''a.jpg'', ''b.jpg'']
      = Inr [''imgs/a.jpg'', ''imgs/b.jpg'']"
    by (simp add: path_join_def)
  have ch: "scale_channels nearest (1, 2) [[[0, 0]], [[1, 0]], [[0, 1]]] (0 # js) ms
      = Inl ValueError" for js ms
    by (rule scale_channels_not_square) simp_all
  have up: "[0 ..< length ?names] = 0 # [1, 2]"
    by (simp add: small3)
  have y: "load_y nearest food_coco (1, 2) ?names ?m [1, 2] = Inl ValueError"
    by (simp only: load_y.simps food_coco_mask_1 up ch sum.case)
  show ?thesis
    by (simp only: load_data_def food_coco_all x y sum.case prod.case)
qed

text \<open>
  With a square target size the same call returns: here one image, the size (1, 1), and
  a resampling that takes the top left pixel.
\<close>

lemma load_data_square_target:
  "load_data (\<lambda>xs. xs) (\<lambda>path sz. Inr path) (\<lambda>a sz y x. a ! 0 ! 0) food_coco ''imgs/''
       (1, 1) (Some [''rice''])
     = Inr ([''imgs/a.jpg''], [[[[0]], [[1]]]])"
  by (simp add: load_data_def load_imgs_def food_coco_def normalize_names_def dict_def
      dict_update_def path_join_def load_mask_def mask_step_def array_defs resize_def
      broadcast_to_def uint8_def upt_small replicate_small)

end
